theory Spec2Isabelle
  imports Complex_Main
begin

section \<open>The marker grammar\<close>

text \<open>
  The document service recognises inline markers with the regular expression
  \<^verbatim>\<open>\[\[CROP:\d+,\d+,\d+,\d+\]\]\<close>. A JavaScript string is modelled as a
  \<^typ>\<open>string\<close>; the marker consists of ASCII characters only, so matching on
  bytes and matching on UTF-16 code units agree.
\<close>

definition isDigit :: "char \<Rightarrow> bool" where
  "isDigit c \<longleftrightarrow> c \<in> set ''0123456789''"

text \<open>A literal piece of the pattern: the rest of the input after it, if it is there.\<close>

fun literal :: "string \<Rightarrow> string \<Rightarrow> string option" where
  "literal [] s = Some s"
| "literal (p # ps) [] = None"
| "literal (p # ps) (c # cs) = (if p = c then literal ps cs else None)"

text \<open>
  The group \<^verbatim>\<open>(\d+)\<close>: the longest run of digits, which must not be empty. The
  pattern continues with a literal that is not a digit, so giving back digits can
  never turn a failed match into a successful one and the greedy choice is the only
  one.
\<close>

definition digits :: "string \<Rightarrow> (string \<times> string) option" where
  "digits s = (if takeWhile isDigit s = [] then None
               else Some (takeWhile isDigit s, dropWhile isDigit s))"

text \<open>
  The pattern tried at the first position of the input: the four captured digit
  groups and the input that follows the match.
\<close>

definition cropRegexAt :: "string \<Rightarrow> ((string \<times> string \<times> string \<times> string) \<times> string) option" where
  "cropRegexAt s =
     (case literal ''[[CROP:'' s of None \<Rightarrow> None | Some s1 \<Rightarrow>
      case digits s1 of None \<Rightarrow> None | Some (a, s2) \<Rightarrow>
      case literal '','' s2 of None \<Rightarrow> None | Some s3 \<Rightarrow>
      case digits s3 of None \<Rightarrow> None | Some (b, s4) \<Rightarrow>
      case literal '','' s4 of None \<Rightarrow> None | Some s5 \<Rightarrow>
      case digits s5 of None \<Rightarrow> None | Some (c, s6) \<Rightarrow>
      case literal '','' s6 of None \<Rightarrow> None | Some s7 \<Rightarrow>
      case digits s7 of None \<Rightarrow> None | Some (d, s8) \<Rightarrow>
      case literal '']]'' s8 of None \<Rightarrow> None | Some s9 \<Rightarrow>
      Some ((a, b, c, d), s9))"


text \<open>The text of a marker with the given four fields.\<close>

definition cropTag :: "string \<Rightarrow> string \<Rightarrow> string \<Rightarrow> string \<Rightarrow> string" where
  "cropTag a b c d = ''[[CROP:'' @ a @ '','' @ b @ '','' @ c @ '','' @ d @ '']]''"

section \<open>Splitting the annotated text\<close>

text \<open>
  \<^verbatim>\<open>fullText.split(cropRegex)\<close>: the input is scanned from the left; at a position
  where the pattern matches, the text collected since the previous match is one
  part, the captured group (the whole match) is the next, and the scan goes on
  after the match; elsewhere the character joins the collected text. The text
  after the last match is the last part. The pattern has no empty match, so
  the empty input gives the single part \<open>''''\<close>.
\<close>

function splitFrom :: "string \<Rightarrow> string \<Rightarrow> string list" where
  "splitFrom acc [] = [acc]"
| "splitFrom acc (c # cs) =
     (case cropRegexAt (c # cs) of
        Some (g, rest) \<Rightarrow> acc # take (length (c # cs) - length rest) (c # cs) # splitFrom [] rest
      | None \<Rightarrow> splitFrom (acc @ [c]) cs)"
  by pat_completeness auto
termination
proof -
  have lit: "length r \<le> length s" if "literal p s = Some r" for p s r
    using that by (induction p s rule: literal.induct) (auto split: if_splits)
  have dig: "length r < length s" if "digits s = Some (a, r)" for s a r
  proof -
    from that have "takeWhile isDigit s \<noteq> []" and "r = dropWhile isDigit s"
      by (auto simp: digits_def split: if_splits)
    moreover have "length (takeWhile isDigit s) + length (dropWhile isDigit s) = length s"
      by (metis length_append takeWhile_dropWhile_id)
    ultimately show ?thesis by (cases "takeWhile isDigit s") auto
  qed
  have shorter: "length rest < length s" if "cropRegexAt s = Some (g, rest)" for s g rest
    using that
    by (auto simp: cropRegexAt_def simp del: literal.simps split: option.splits
          dest!: lit dig)
  show ?thesis
    by (relation "measure (\<lambda>(acc, s). length s)") (auto dest: shorter)
qed

definition splitCrop :: "string \<Rightarrow> string list" where
  "splitCrop fullText = splitFrom [] fullText"

text \<open>
  \<^verbatim>\<open>part.match(/^\[\[CROP:(\d+),(\d+),(\d+),(\d+)\]\]$/)\<close>: the pattern must cover
  the whole part.
\<close>

definition cropTagMatch :: "string \<Rightarrow> (string \<times> string \<times> string \<times> string) option" where
  "cropTagMatch part =
     (case cropRegexAt part of
        Some (g, rest) \<Rightarrow> (if rest = [] then Some g else None)
      | None \<Rightarrow> None)"

text \<open>
  \<^verbatim>\<open>parseInt\<close> on a string of decimal digits. JavaScript numbers are doubles;
  the model computes with exact integers and rationals, which agrees with the
  doubles on the integers below \<open>2^53\<close>.
\<close>

definition digitValue :: "char \<Rightarrow> int" where
  "digitValue c = int (of_char c) - 48"

definition parseInt :: "string \<Rightarrow> int" where
  "parseInt s = foldl (\<lambda>n c. 10 * n + digitValue c) 0 s"

text \<open>
  The segments of the specification: a part that is a marker is a crop reference,
  any other part is text. The loop skips the empty parts.
\<close>

datatype segment = TextSegment string | CropSegment int int int int

definition segmentOf :: "string \<Rightarrow> segment" where
  "segmentOf part =
     (case cropTagMatch part of
        Some (a, b, c, d) \<Rightarrow> CropSegment (parseInt a) (parseInt b) (parseInt c) (parseInt d)
      | None \<Rightarrow> TextSegment part)"

definition keptParts :: "string \<Rightarrow> string list" where
  "keptParts fullText = filter (\<lambda>part. part \<noteq> []) (splitCrop fullText)"

text \<open>The text a segment stands for: its content, or the marker as it was written.\<close>

definition sourceOf :: "string \<Rightarrow> string" where
  "sourceOf part = (case segmentOf part of TextSegment t \<Rightarrow> t | CropSegment _ _ _ _ \<Rightarrow> part)"

section \<open>Object URLs\<close>

text \<open>
  \<^verbatim>\<open>URL.createObjectURL\<close> hands out a fresh handle and keeps it open until
  \<^verbatim>\<open>URL.revokeObjectURL\<close> is called on it. The store is the browser's table of
  open handles.
\<close>

record url_store =
  next_url :: nat
  open_urls :: "nat set"

definition createObjectURL :: "url_store \<Rightarrow> nat \<times> url_store" where
  "createObjectURL s =
     (next_url s, s\<lparr>next_url := Suc (next_url s), open_urls := insert (next_url s) (open_urls s)\<rparr>)"

definition revokeObjectURL :: "nat \<Rightarrow> url_store \<Rightarrow> url_store" where
  "revokeObjectURL url s = s\<lparr>open_urls := open_urls s - {url}\<rparr>"

section \<open>Cropping a region\<close>

text \<open>
  An uploaded \<^verbatim>\<open>File\<close>, with what the browser finds when it loads it into an
  \<^verbatim>\<open>Image\<close>: whether \<^verbatim>\<open>onload\<close> fires (otherwise \<^verbatim>\<open>onerror\<close> does) and the
  pixel size. The bytes of an \<^verbatim>\<open>ArrayBuffer\<close> are never inspected.
\<close>

type_synonym buffer = "nat list"

record image_file =
  file_name :: string
  img_decodes :: bool
  img_width :: nat
  img_height :: nat

text \<open>
  The canvas calls of \<^verbatim>\<open>cropImage\<close> (creating the canvas, \<^verbatim>\<open>getContext\<close>,
  \<^verbatim>\<open>drawImage\<close>, \<^verbatim>\<open>toBlob\<close>, reading the blob) belong to the browser and are a
  parameter: given the image and the rectangle they end in no context, in an
  exception, in a null blob, or in the bytes of the encoded image.
\<close>

datatype canvas_result = NoContext | Raised | NullBlob | Blob buffer

type_synonym canvas = "image_file \<Rightarrow> rat \<Rightarrow> rat \<Rightarrow> rat \<Rightarrow> rat \<Rightarrow> canvas_result"

text \<open>
  The ways the promise is rejected: \<open>InvalidCropDimensions\<close> is the degenerate
  region, \<open>LoadFailed\<close> the decode error of the image.
\<close>

datatype crop_error =
  InvalidCropDimensions | NoCanvasContext | CropFailed | LoadFailed | Caught

definition cropImage ::
  "canvas \<Rightarrow> image_file \<Rightarrow> int \<Rightarrow> int \<Rightarrow> int \<Rightarrow> int \<Rightarrow> url_store \<Rightarrow> (crop_error + buffer) \<times> url_store" where
  "cropImage cv file ymin xmin ymax xmax s =
     (case createObjectURL s of (url, s1) \<Rightarrow>
        if \<not> img_decodes file then (Inl LoadFailed, revokeObjectURL url s1)
        else
          let realX = (of_int xmin / 1000) * of_nat (img_width file);
              realY = (of_int ymin / 1000) * of_nat (img_height file);
              realW = (of_int (xmax - xmin) / 1000) * of_nat (img_width file);
              realH = (of_int (ymax - ymin) / 1000) * of_nat (img_height file)
          in if realW \<le> 0 \<or> realH \<le> 0 then (Inl InvalidCropDimensions, s1)
             else (case cv file realX realY realW realH of
                     NoContext \<Rightarrow> (Inl NoCanvasContext, s1)
                   | NullBlob \<Rightarrow> (Inl CropFailed, s1)
                   | Blob imageBuffer \<Rightarrow> (Inr imageBuffer, revokeObjectURL url s1)
                   | Raised \<Rightarrow> (Inl Caught, revokeObjectURL url s1)))"

section \<open>The document\<close>












section \<open>Assembling the document\<close>

datatype ProcessingStatus = IDLE | PROCESSING | COMPLETED | ERROR












section \<open>Layout of the document\<close>








section \<open>Example inputs\<close>

text \<open>A canvas that always encodes, and records the pixel size it was asked for.\<close>

definition exCanvas :: canvas where
  "exCanvas f x y w h = Blob [nat \<lfloor>w\<rfloor>, nat \<lfloor>h\<rfloor>]"

definition exStore :: url_store where
  "exStore = \<lparr>next_url = 0, open_urls = {}\<rparr>"

definition exImage :: "string \<Rightarrow> image_file" where
  "exImage name = \<lparr>file_name = name, img_decodes = True, img_width = 1000, img_height = 1000\<rparr>"



section \<open>Facts about the marker grammar\<close>

lemma literal_append: "literal p s = Some r \<Longrightarrow> s = p @ r"
  by (induction p s rule: literal.induct) (auto split: if_splits)

lemma literal_length: "literal p s = Some r \<Longrightarrow> length s = length p + length r"
  by (drule literal_append) simp

lemma digits_append: "digits s = Some (a, r) \<Longrightarrow> s = a @ r \<and> a \<noteq> [] \<and> (\<forall>x\<in>set a. isDigit x)"
  by (auto simp: digits_def split: if_splits dest: set_takeWhileD)

lemma cropRegexAt_append:
  assumes "cropRegexAt s = Some ((a, b, c, d), r)"
  shows "s = cropTag a b c d @ r"
  using assms unfolding cropRegexAt_def cropTag_def
  by (auto split: option.splits dest!: literal_append digits_append)

lemma cropRegexAt_shorter:
  assumes "cropRegexAt s = Some (g, r)"
  shows "length r < length s"
proof -
  obtain a b c d where "g = (a, b, c, d)" by (cases g) auto
  with assms have "s = cropTag a b c d @ r" by (simp add: cropRegexAt_append)
  then have "length s = length (cropTag a b c d) + length r" by (metis length_append)
  then show ?thesis by (simp add: cropTag_def)
qed

section \<open>Round trip of the split\<close>

lemma concat_splitFrom: "concat (splitFrom acc s) = acc @ s"
proof (induction acc s rule: splitFrom.induct)
  case (1 acc)
  show ?case by simp
next
  case (2 acc c cs)
  show ?case
  proof (cases "cropRegexAt (c # cs)")
    case None
    with 2 show ?thesis by simp
  next
    case (Some p)
    obtain g rest where p: "p = (g, rest)" by (cases p) auto
    from Some p have "length rest < length (c # cs)" by (auto dest: cropRegexAt_shorter)
    obtain a b c' d where g: "g = (a, b, c', d)" by (cases g) auto
    from Some p g have eq: "c # cs = cropTag a b c' d @ rest"
      by (simp add: cropRegexAt_append)
    then have tk: "take (length (c # cs) - length rest) (c # cs) = cropTag a b c' d"
      by (metis add_diff_cancel_right' append_eq_conv_conj length_append)
    have sf: "splitFrom acc (c # cs) = acc # cropTag a b c' d # splitFrom [] rest"
      using Some p tk by simp
    have "concat (splitFrom [] rest) = rest"
      using 2(2)[OF Some p[symmetric]] by simp
    then show ?thesis unfolding sf using eq by simp
  qed
qed

lemma sourceOf_id: "sourceOf part = part"
  by (simp add: sourceOf_def segmentOf_def split: option.splits)

lemma concat_filter_nonempty: "concat (filter (\<lambda>p. p \<noteq> []) ps) = concat ps"
  by (induction ps) auto

text \<open>
  C1. For every input string, the parts the loop keeps, each read as the content of
  its text segment or as the original marker of its crop segment and concatenated
  in order, are the input string.
\<close>

theorem parse_round_trip:
  "concat (map sourceOf (keptParts fullText)) = fullText"
proof -
  have "map sourceOf (keptParts fullText) = keptParts fullText"
    by (simp add: sourceOf_id cong: map_cong)
  then show ?thesis
    by (simp add: keptParts_def splitCrop_def concat_filter_nonempty concat_splitFrom)
qed

section \<open>The cropper\<close>




text \<open>
  C8. The degenerate marker \<^verbatim>\<open>[[CROP:0,0,0,0]]\<close> on an image that decodes: no object
  URL is open before the call, the call is rejected, and the URL it created is
  still open afterwards.
\<close>

theorem crop_degenerate_keeps_url_open:
  "open_urls exStore = {} \<and>
   cropImage exCanvas (exImage ''x.png'') 0 0 0 0 exStore =
     (Inl InvalidCropDimensions, \<lparr>next_url = 1, open_urls = {0}\<rparr>)"
  by (simp add: cropImage_def createObjectURL_def exImage_def exStore_def)

section \<open>One part of the text\<close>







section \<open>The whole document\<close>



















section \<open>Headers and page breaks\<close>




























section \<open>Markers in the text\<close>

lemma literal_self: "literal p (p @ r) = Some r"
  by (induction p) auto

























end
